theory Spec2Isabelle
  imports Complex_Main "HOL-Library.Word" "HOL-Library.Log_Nat"
begin

unbundle bit_operations_syntax

section \<open>Numbers and session statistics (ProfilePage, AnalyticsPage, DashboardPage)\<close>

text \<open>
  In the statistics and the trend labels JavaScript numbers are modelled as exact reals:
  arithmetic does not round. What a real cannot be is made a fault: a division by zero
  (JavaScript gives Infinity or NaN) and the exceptions the runtime throws.
\<close>

datatype fault = NotFinite | TypeError | RangeError

definition js_div :: "real \<Rightarrow> real \<Rightarrow> fault + real" where
  "js_div a b = (if b = 0 then Inl NotFinite else Inr (a / b))"

subsection \<open>Binary64 rounding\<close>

text \<open>
  The feedback rules cut at thresholds on numbers the page has computed, so there the
  rounding of JavaScript's arithmetic decides the branch and the digits. A finite
  JavaScript number is a real of the form \<open>m * 2^k\<close> with \<open>\<bar>m\<bar> < 2^53\<close> and
  \<open>k \<ge> -1074\<close>; an operation returns the exact result rounded to the nearest such
  number, to the one with the even \<open>m\<close> on a tie, and an infinity once the rounded
  magnitude reaches \<open>2^1024\<close>.

  \<open>ilog2 x\<close> is the exponent \<open>e\<close> with \<open>2^e \<le> x < 2^(e+1)\<close> of a positive \<open>x\<close>,
  read off the bit length of \<open>\<lfloor>x\<rfloor>\<close>, or of \<open>\<lceil>1/x\<rceil> - 1\<close> below 1.
\<close>

datatype number = Num real | PosInfinity | NegInfinity | NaN

definition pow2 :: "int \<Rightarrow> real" where
  "pow2 k = (if k \<ge> 0 then 2 ^ nat k else 1 / 2 ^ nat (- k))"

definition ilog2 :: "real \<Rightarrow> int" where
  "ilog2 x = (if x \<ge> 1 then bitlen \<lfloor>x\<rfloor> - 1 else - bitlen (\<lceil>1 / x\<rceil> - 1))"






subsection \<open>Shot statistics of a session\<close>

text \<open>
  Modelled from the spec: the declarations of \<open>ShotStats\<close> and of the sessions of a
  \<open>PlayerHistoryResponse\<close> are in \<open>services/api\<close>, which the pages import. The fields
  are the ones the pages read; a swing count is an integer, as the data model has it,
  and may be any integer here, also a negative one.
\<close>

record ShotStats =
  shot_type :: string
  count :: int
  average_confidence :: real
  average_speed_mps :: real

record Session =
  session_id :: string
  shots :: "ShotStats list"

record Summary =
  avgAccuracy :: real
  avgSpeed :: real

text \<open>
  The \<open>for (const s of shots)\<close> loop of \<open>summarizeShots\<close>, with its three running
  variables \<open>totalCount\<close>, \<open>sumAccuracy\<close>, \<open>sumSpeed\<close>.
\<close>

fun summarize_loop :: "ShotStats list \<Rightarrow> int \<times> real \<times> real \<Rightarrow> int \<times> real \<times> real" where
  "summarize_loop [] acc = acc"
| "summarize_loop (s # ss) (totalCount, sumAccuracy, sumSpeed) =
     summarize_loop ss
       (totalCount + count s,
        sumAccuracy + average_confidence s * of_int (count s),
        sumSpeed + average_speed_mps s * of_int (count s))"

definition zero_summary :: Summary where
  "zero_summary = \<lparr>avgAccuracy = 0, avgSpeed = 0\<rparr>"

text \<open>The expression \<open>n ? acc / n : 0\<close> of the three pages; a number is truthy when it
  is not 0.\<close>

definition guarded_quotient :: "int \<Rightarrow> real \<Rightarrow> fault + real" where
  "guarded_quotient n acc = (if n \<noteq> 0 then js_div acc (of_int n) else Inr 0)"

definition summarizeShots :: "ShotStats list \<Rightarrow> fault + Summary" where
  "summarizeShots ss =
     (if length ss = 0 then Inr zero_summary
      else (case summarize_loop ss (0, 0, 0) of
              (totalCount, sumAccuracy, sumSpeed) \<Rightarrow>
                (case guarded_quotient totalCount sumAccuracy of
                   Inl e \<Rightarrow> Inl e
                 | Inr a \<Rightarrow>
                     (case guarded_quotient totalCount sumSpeed of
                        Inl e \<Rightarrow> Inl e
                      | Inr v \<Rightarrow> Inr \<lparr>avgAccuracy = a, avgSpeed = v\<rparr>))))"

text \<open>
  The career-wide aggregate: the nested loops over all sessions and their shots, with the
  running variables \<open>overallCount\<close> (here \<open>cnt\<close>) and \<open>overallAccSum\<close>. ProfilePage
  fills a per-shot table in the same loop; the two overall variables never read it.
\<close>

fun overall_shots_loop :: "ShotStats list \<Rightarrow> int \<times> real \<Rightarrow> int \<times> real" where
  "overall_shots_loop [] acc = acc"
| "overall_shots_loop (shot # rest) (cnt, overallAccSum) =
     overall_shots_loop rest
       (cnt + count shot,
        overallAccSum + average_confidence shot * of_int (count shot))"

fun overall_loop :: "Session list \<Rightarrow> int \<times> real \<Rightarrow> int \<times> real" where
  "overall_loop [] acc = acc"
| "overall_loop (session # rest) acc =
     overall_loop rest (overall_shots_loop (shots session) acc)"

definition overallCount :: "Session list \<Rightarrow> int" where
  "overallCount sessions = fst (overall_loop sessions (0, 0))"

definition overallAccuracy :: "Session list \<Rightarrow> fault + real" where
  "overallAccuracy sessions =
     (case overall_loop sessions (0, 0) of
        (cnt, overallAccSum) \<Rightarrow> guarded_quotient cnt overallAccSum)"

text \<open>
  DashboardPage: the loop over \<open>Object.values(shotStatsByType)\<close>, with \<open>totalSwings\<close>,
  \<open>accWeightedSum\<close> and the running \<open>primaryShot\<close> (replaced only by a strictly larger
  count).
\<close>

fun dashboard_loop ::
  "ShotStats list \<Rightarrow> int \<times> real \<times> ShotStats option \<Rightarrow> int \<times> real \<times> ShotStats option" where
  "dashboard_loop [] acc = acc"
| "dashboard_loop (stat # rest) (totalSwings, accWeightedSum, primaryShot) =
     dashboard_loop rest
       (totalSwings + count stat,
        accWeightedSum + average_confidence stat * of_int (count stat),
        (case primaryShot of
           None \<Rightarrow> Some stat
         | Some p \<Rightarrow> if count stat > count p then Some stat else Some p))"

definition dashboardOverallAccuracy :: "ShotStats list \<Rightarrow> fault + real" where
  "dashboardOverallAccuracy shotStatsList =
     (case dashboard_loop shotStatsList (0, 0, None) of
        (totalSwings, accWeightedSum, primaryShot) \<Rightarrow>
          guarded_quotient totalSwings accWeightedSum)"

subsection \<open>Level classifier\<close>

datatype Level = Amateur | Veteran | Pro

definition level :: "int \<Rightarrow> real \<Rightarrow> Level" where
  "level overallCnt overallAcc =
     (if overallCnt \<ge> 400 \<and> overallAcc \<ge> 0.8 then Pro
      else if overallCnt \<ge> 200 \<and> overallAcc \<ge> 0.65 then Veteran
      else Amateur)"

subsection \<open>The count-weighted mean, as the specification words it\<close>

definition total_count :: "ShotStats list \<Rightarrow> int" where
  "total_count ss = (\<Sum>s\<leftarrow>ss. count s)"

definition count_weighted_mean :: "(ShotStats \<Rightarrow> real) \<Rightarrow> ShotStats list \<Rightarrow> real" where
  "count_weighted_mean f ss =
     (if total_count ss = 0 then 0
      else (\<Sum>s\<leftarrow>ss. f s * of_int (count s)) / of_int (total_count ss))"

definition mean_of_means :: "(ShotStats \<Rightarrow> real) \<Rightarrow> ShotStats list \<Rightarrow> real" where
  "mean_of_means f ss = (if ss = [] then 0 else (\<Sum>s\<leftarrow>ss. f s) / of_nat (length ss))"

definition all_shots :: "Session list \<Rightarrow> ShotStats list" where
  "all_shots sessions = concat (map shots sessions)"

definition uneven_shots :: "ShotStats list" where
  "uneven_shots =
     [\<lparr>shot_type = ''Forehand'', count = 3, average_confidence = 1, average_speed_mps = 8\<rparr>,
      \<lparr>shot_type = ''Smash'', count = 1, average_confidence = 0, average_speed_mps = 12\<rparr>]"

definition idle_shots :: "ShotStats list" where
  "idle_shots =
     [\<lparr>shot_type = ''Forehand'', count = 0, average_confidence = 9 / 10, average_speed_mps = 8\<rparr>,
      \<lparr>shot_type = ''Smash'', count = 0, average_confidence = 1 / 2, average_speed_mps = 12\<rparr>]"

section \<open>Trend labels and feedback (ProfilePage, AnalyticsPage)\<close>

text \<open>
  Strings are byte strings in UTF-8, so the dashes of the feedback templates are three
  bytes each.

  \<open>toFixed1 x\<close> is \<open>x.toFixed(1)\<close> as ECMAScript defines it, on an exact real: the
  sign is split off, \<open>n\<close> is the integer nearest to \<open>10 * x\<close> (the larger one on a tie),
  its decimal digits are padded to two, and the point goes before the last digit. From
  \<open>10^21\<close> on, ECMAScript prints the number in exponent notation instead; that rendering
  is outside this function, and the statements about the digits keep below it.
\<close>

definition digit_char :: "nat \<Rightarrow> char" where
  "digit_char d = ''0123456789'' ! d"

fun decimal :: "nat \<Rightarrow> string" where
  "decimal n = (if n < 10 then [digit_char n] else decimal (n div 10) @ [digit_char (n mod 10)])"

declare decimal.simps [simp del]

definition toFixed1 :: "real \<Rightarrow> string" where
  "toFixed1 x0 =
     (let s = (if x0 < 0 then ''-'' else []);
          x = (if x0 < 0 then - x0 else x0);
          n = nat \<lfloor>x * 10 + 1 / 2\<rfloor>;
          m = decimal n;
          m = (if length m \<le> 1 then replicate (2 - length m) CHR ''0'' @ m else m);
          k = length m
      in s @ take (k - 1) m @ ''.'' @ drop (k - 1) m)"

text \<open>
  The values every render of the page computes from the fetched history: \<open>sessions\<close>
  is \<open>history?.sessions ?? []\<close>; indexing below 0 gives \<open>undefined\<close>.
\<close>

definition latest :: "Session list \<Rightarrow> Session option" where
  "latest sessions =
     (if length sessions = 0 then None else Some (sessions ! (length sessions - 1)))"

definition previous :: "Session list \<Rightarrow> Session option" where
  "previous sessions =
     (if length sessions > 1 then Some (sessions ! (length sessions - 2)) else None)"

definition summary_of :: "Session option \<Rightarrow> fault + Summary" where
  "summary_of session =
     (case session of Some x \<Rightarrow> summarizeShots (shots x) | None \<Rightarrow> Inr zero_summary)"

definition latestSummary :: "Session list \<Rightarrow> fault + Summary" where
  "latestSummary sessions = summary_of (latest sessions)"

definition prevSummary :: "Session list \<Rightarrow> fault + Summary" where
  "prevSummary sessions = summary_of (previous sessions)"

definition accuracyDelta :: "Session list \<Rightarrow> fault + real" where
  "accuracyDelta sessions =
     (case latestSummary sessions of
        Inl e \<Rightarrow> Inl e
      | Inr l \<Rightarrow>
          (case prevSummary sessions of
             Inl e \<Rightarrow> Inl e
           | Inr p \<Rightarrow> Inr (avgAccuracy l - avgAccuracy p)))"

definition speedDelta :: "Session list \<Rightarrow> fault + real" where
  "speedDelta sessions =
     (case latestSummary sessions of
        Inl e \<Rightarrow> Inl e
      | Inr l \<Rightarrow>
          (case prevSummary sessions of
             Inl e \<Rightarrow> Inl e
           | Inr p \<Rightarrow> Inr (avgSpeed l - avgSpeed p)))"

text \<open>
  \<open>renderDeltaLabel\<close> reads \<open>previous\<close> from the enclosing component; here it is the
  first argument.
\<close>

definition renderDeltaLabel :: "Session option \<Rightarrow> real \<Rightarrow> string \<Rightarrow> string" where
  "renderDeltaLabel prev delta unit =
     (if prev = None then ''no previous data''
      else let pct = delta * 100 in
        if \<bar>pct\<bar> < 1 / 1000 then ''no change in '' @ unit
        else if delta > 0 then toFixed1 pct @ ''% increase in '' @ unit
        else toFixed1 (- pct) @ ''% decrease in '' @ unit)"

text \<open>
  The two labels the pages show: \<open>renderDeltaLabel(accuracyDelta, 'accuracy')\<close> and
  \<open>renderDeltaLabel(speedDelta, 'speed')\<close>.
\<close>

definition accuracyTrend :: "Session list \<Rightarrow> fault + string" where
  "accuracyTrend sessions =
     (case accuracyDelta sessions of
        Inl e \<Rightarrow> Inl e
      | Inr d \<Rightarrow> Inr (renderDeltaLabel (previous sessions) d ''accuracy''))"

definition speedTrend :: "Session list \<Rightarrow> fault + string" where
  "speedTrend sessions =
     (case speedDelta sessions of
        Inl e \<Rightarrow> Inl e
      | Inr d \<Rightarrow> Inr (renderDeltaLabel (previous sessions) d ''speed''))"

subsection \<open>Feedback messages\<close>










text \<open>
  \<open>[...latest.shots].sort((a, b) => b.count - a.count)[0]\<close>: the sort is stable and
  descending in the count, so it is the insertion sort of the library on the key
  \<open>- count\<close>; element 0 of an empty array is \<open>undefined\<close>, and reading
  \<open>shot_type\<close> of \<open>undefined\<close> throws a TypeError.
\<close>

definition primaryShot :: "ShotStats list \<Rightarrow> ShotStats option" where
  "primaryShot ss = (case sort_key (\<lambda>s. - count s) ss of [] \<Rightarrow> None | p # _ \<Rightarrow> Some p)"





subsection \<open>The dominant shot, as the specification words it\<close>


definition session_accuracy :: "Session \<Rightarrow> real" where
  "session_accuracy x = count_weighted_mean average_confidence (shots x)"

definition accuracy_of :: "Session option \<Rightarrow> real" where
  "accuracy_of session = (case session of None \<Rightarrow> 0 | Some x \<Rightarrow> session_accuracy x)"

definition steady_then_better :: "Session list" where
  "steady_then_better =
     [\<lparr>session_id = ''s1'',
       shots = [\<lparr>shot_type = ''Forehand'', count = 10, average_confidence = 0.80,
                 average_speed_mps = 8\<rparr>]\<rparr>,
      \<lparr>session_id = ''s2'',
       shots = [\<lparr>shot_type = ''Forehand'', count = 10, average_confidence = 0.90,
                 average_speed_mps = 8\<rparr>,
                \<lparr>shot_type = ''Smash'', count = 10, average_confidence = 0.80,
                 average_speed_mps = 12\<rparr>]\<rparr>]"





section \<open>Live capture (DevicePage)\<close>

text \<open>
  A notification is a \<open>DataView\<close>: a list of bytes. \<open>getFloat32(off, true)\<close> reads
  four bytes little-endian and returns the number that IEEE 754 binary32 pattern stands
  for; it throws a RangeError when the four bytes do not fit. Every binary32 value is a
  JavaScript number exactly, so the decoded value is a \<open>number\<close>: a real, an infinity
  or NaN (the sign of a zero is not kept).
\<close>

type_synonym byte = "8 word"

definition le32 :: "byte \<Rightarrow> byte \<Rightarrow> byte \<Rightarrow> byte \<Rightarrow> 32 word" where
  "le32 b0 b1 b2 b3 =
     ucast b0 OR push_bit 8 (ucast b1) OR push_bit 16 (ucast b2) OR push_bit 24 (ucast b3)"

definition float32_value :: "32 word \<Rightarrow> number" where
  "float32_value w =
     (let negative = bit w 31;
          e = unat (drop_bit 23 w AND 0xFF);
          frac = unat (w AND 0x7FFFFF);
          sgn = (if negative then - 1 else 1)
      in if e = 255 then
           (if frac = 0 then (if negative then NegInfinity else PosInfinity) else NaN)
         else if e = 0 then Num (sgn * real frac / 2 ^ 149)
         else if e \<ge> 150 then Num (sgn * real (2 ^ 23 + frac) * 2 ^ (e - 150))
         else Num (sgn * real (2 ^ 23 + frac) / 2 ^ (150 - e)))"

definition getFloat32 :: "byte list \<Rightarrow> nat \<Rightarrow> fault + number" where
  "getFloat32 v off =
     (if off + 4 > length v then Inl RangeError
      else Inr (float32_value (le32 (v ! off) (v ! (off + 1)) (v ! (off + 2)) (v ! (off + 3)))))"

definition bind_fault :: "fault + 'a \<Rightarrow> ('a \<Rightarrow> fault + 'b) \<Rightarrow> fault + 'b" where
  "bind_fault r f = (case r of Inl e \<Rightarrow> Inl e | Inr x \<Rightarrow> f x)"

text \<open>
  Modelled from the spec: \<open>SwingSamplePayload\<close>, \<open>ClassificationResult\<close> and the
  request of \<open>classifySwing\<close> are declared in \<open>services/api\<close>; the fields are the
  ones DevicePage writes and reads.
\<close>

record SwingSamplePayload =
  ax :: number
  ay :: number
  az :: number
  gx :: number
  gy :: number
  gz :: number
  t :: real

datatype ClassificationResult =
  ClassificationResult (result_shot_type: string) (confidence: real) (speed_mps: real)
    (accuracy_score: real)

record SwingRequest =
  player_id :: string
  request_session_id :: string
  sampling_rate_hz :: nat
  samples :: "SwingSamplePayload list"

text \<open>
  The state of one mounted DevicePage: the two refs the capture path owns, and the
  component state the handlers set. \<open>deviceRef\<close> records only whether a device handle
  is held.
\<close>

record DeviceState =
  samplesRef :: "SwingSamplePayload list"
  startTimeRef :: "real option"
  deviceRef :: bool
  supported :: "bool option"
  connecting :: bool
  is_connected :: bool
  deviceName :: string
  error_text :: "string option"
  sending :: bool
  lastSample :: "SwingSamplePayload option"
  lastResult :: "ClassificationResult option"

text \<open>The state after mount, once the effect has looked for \<open>navigator.bluetooth\<close>.\<close>

definition mounted :: "bool \<Rightarrow> DeviceState" where
  "mounted hasBluetooth =
     \<lparr>samplesRef = [], startTimeRef = None, deviceRef = False,
      supported = Some hasBluetooth, connecting = False, is_connected = False,
      deviceName = [], error_text = None, sending = False,
      lastSample = None, lastResult = None\<rparr>"

text \<open>
  \<open>xs.slice(-k)\<close> for a positive \<open>k\<close>: from index \<open>max (length - k) 0\<close> to the end.
  Subtraction on \<open>nat\<close> stops at 0, as that maximum does.
\<close>

definition slice_last :: "nat \<Rightarrow> 'a list \<Rightarrow> 'a list" where
  "slice_last k xs = drop (length xs - k) xs"

text \<open>
  Lines 38 to 52 of \<open>addSampleFromNotification\<close>: the six reads, and the sample
  built from them and from the clock reading \<open>now\<close> against the start time.
\<close>

definition readSample :: "byte list \<Rightarrow> real \<Rightarrow> real \<Rightarrow> fault + SwingSamplePayload" where
  "readSample v start now =
     bind_fault (getFloat32 v 0) (\<lambda>x0.
     bind_fault (getFloat32 v 4) (\<lambda>x1.
     bind_fault (getFloat32 v 8) (\<lambda>x2.
     bind_fault (getFloat32 v 12) (\<lambda>x3.
     bind_fault (getFloat32 v 16) (\<lambda>x4.
     bind_fault (getFloat32 v 20) (\<lambda>x5.
       Inr \<lparr>ax = x0, ay = x1, az = x2, gx = x3, gy = x4, gz = x5,
            t = (now - start) / 1000\<rparr>))))))"

text \<open>
  \<open>now\<close> is the value \<open>performance.now()\<close> returns during the call. The reads come
  first in the source and touch no state, so a fault in them leaves before any write.
\<close>

definition addSampleFromNotification ::
  "byte list \<Rightarrow> real \<Rightarrow> DeviceState \<Rightarrow> fault + DeviceState" where
  "addSampleFromNotification v now st =
     (if length v < 24 then Inr st
      else
        let (start, kept) =
              (case startTimeRef st of
                 None \<Rightarrow> (now, [])
               | Some t0 \<Rightarrow> (t0, samplesRef st))
        in bind_fault (readSample v start now) (\<lambda>sample.
             let pushed = kept @ [sample]
             in Inr (st\<lparr>startTimeRef := Some start,
                        samplesRef :=
                          (if length pushed > 400 then slice_last 400 pushed else pushed),
                        lastSample := Some sample\<rparr>)))"

text \<open>
  \<open>handleConnect\<close> awaits the browser; what the browser answered is the argument:
  the request for a device failed, or a device was chosen and a later step failed, or
  all steps went through and the notification listener is attached. A failure carries
  the error's \<open>message\<close>, a device its \<open>name\<close>, each possibly missing.
\<close>

datatype connect_result =
  RequestFailed "string option"
| LinkFailed "string option" "string option"
| Linked "string option"

definition message_or :: "string option \<Rightarrow> string \<Rightarrow> string" where
  "message_or m d = (case m of None \<Rightarrow> d | Some s \<Rightarrow> if s = [] then d else s)"

definition name_or :: "string option \<Rightarrow> string \<Rightarrow> string" where
  "name_or n d = (case n of None \<Rightarrow> d | Some s \<Rightarrow> s)"

definition handleConnect :: "connect_result \<Rightarrow> DeviceState \<Rightarrow> DeviceState" where
  "handleConnect r st =
     (if supported st \<noteq> Some True then st
      else
        let st1 = st\<lparr>error_text := None, connecting := True, lastResult := None\<rparr>
        in case r of
             RequestFailed m \<Rightarrow>
               st1\<lparr>error_text := Some (message_or m ''Failed to connect to device.''),
                    is_connected := False, deviceRef := False, connecting := False\<rparr>
           | LinkFailed n m \<Rightarrow>
               st1\<lparr>deviceName := name_or n ''Unknown device'',
                    error_text := Some (message_or m ''Failed to connect to device.''),
                    is_connected := False, deviceRef := False, connecting := False\<rparr>
           | Linked n \<Rightarrow>
               st1\<lparr>deviceRef := True, deviceName := name_or n ''Unknown device'',
                    is_connected := True, connecting := False\<rparr>)"

definition handleDisconnect :: "DeviceState \<Rightarrow> DeviceState" where
  "handleDisconnect st = st\<lparr>deviceRef := False, is_connected := False\<rparr>"

text \<open>
  \<open>handleSendSwing\<close>: the second component of the result is the request passed to
  \<open>classifySwing\<close>, if one is sent; the first argument is what the call answered. The
  window is copied before the call is awaited, and nothing after it reads or writes the
  buffer.
\<close>

datatype classify_result = Classified ClassificationResult | ClassifyFailed "string option"

definition DEFAULT_PLAYER_ID :: string where
  "DEFAULT_PLAYER_ID = ''practice_player''"

definition DEFAULT_SESSION_ID :: string where
  "DEFAULT_SESSION_ID = ''device_session''"

definition handleSendSwing ::
  "classify_result \<Rightarrow> DeviceState \<Rightarrow> DeviceState \<times> SwingRequest option" where
  "handleSendSwing answer st =
     (if length (samplesRef st) = 0 then
        (st\<lparr>error_text :=
              Some ''No samples captured yet from the device. Move the bat to generate data.''\<rparr>,
         None)
      else
        let st1 = st\<lparr>error_text := None, sending := True, lastResult := None\<rparr>;
            request =
              \<lparr>player_id = DEFAULT_PLAYER_ID, request_session_id = DEFAULT_SESSION_ID,
               sampling_rate_hz = 100, samples = slice_last 100 (samplesRef st)\<rparr>
        in case answer of
             Classified r \<Rightarrow> (st1\<lparr>lastResult := Some r, sending := False\<rparr>, Some request)
           | ClassifyFailed m \<Rightarrow>
               (st1\<lparr>error_text :=
                      Some (message_or m ''Failed to classify swing from device data.''),
                    sending := False\<rparr>,
                Some request))"

text \<open>
  What happens to a mounted page, in order: the two buttons, a notification delivered to
  the listener (whose value may be missing: \<open>if (!value) return\<close>), and the send button.
\<close>

datatype event =
  Connect connect_result
| Disconnect
| Notification "byte list option" real
| SendSwing classify_result

fun step :: "event \<Rightarrow> DeviceState \<Rightarrow> fault + DeviceState" where
  "step (Connect r) st = Inr (handleConnect r st)"
| "step Disconnect st = Inr (handleDisconnect st)"
| "step (Notification None now) st = Inr st"
| "step (Notification (Some v) now) st = addSampleFromNotification v now st"
| "step (SendSwing answer) st = Inr (fst (handleSendSwing answer st))"

fun run :: "event list \<Rightarrow> DeviceState \<Rightarrow> fault + DeviceState" where
  "run [] st = Inr st"
| "run (ev # evs) st = bind_fault (step ev st) (run evs)"

text \<open>The firmware's frame for the readings 1, 2, 3, 4, 5, 6, and the same cut to 23 bytes.\<close>

definition frame_1_to_6 :: "byte list" where
  "frame_1_to_6 =
     [0x00, 0x00, 0x80, 0x3F,  0x00, 0x00, 0x00, 0x40,  0x00, 0x00, 0x40, 0x40,
      0x00, 0x00, 0x80, 0x40,  0x00, 0x00, 0xA0, 0x40,  0x00, 0x00, 0xC0, 0x40]"

definition notify :: "byte list \<times> real \<Rightarrow> event" where
  "notify f = Notification (Some (fst f)) (snd f)"

subsection \<open>The decoded sample, as the specification words it\<close>

text \<open>The binary32 value in the four bytes from offset \<open>off\<close>, lowest byte first.\<close>

definition field_at :: "byte list \<Rightarrow> nat \<Rightarrow> number" where
  "field_at v off = float32_value (le32 (v ! off) (v ! (off + 1)) (v ! (off + 2)) (v ! (off + 3)))"

definition decoded :: "byte list \<Rightarrow> real \<Rightarrow> real \<Rightarrow> SwingSamplePayload" where
  "decoded v start now =
     \<lparr>ax = field_at v 0, ay = field_at v 4, az = field_at v 8,
      gx = field_at v 12, gy = field_at v 16, gz = field_at v 20,
      t = (now - start) / 1000\<rparr>"

definition one_to_six :: "real \<Rightarrow> SwingSamplePayload" where
  "one_to_six secs =
     \<lparr>ax = Num 1, ay = Num 2, az = Num 3, gx = Num 4, gy = Num 5, gz = Num 6, t = secs\<rparr>"

text \<open>
  A session at the device: connect, one frame at clock 1000 ms, disconnect, connect
  again, one frame at clock 5000 ms.
\<close>

definition reconnect_trace :: "event list" where
  "reconnect_trace =
     [Connect (Linked (Some ''NeuraBat'')), notify (frame_1_to_6, 1000), Disconnect,
      Connect (Linked (Some ''NeuraBat'')), notify (frame_1_to_6, 5000)]"

definition full_buffer :: "SwingSamplePayload list" where
  "full_buffer = map (\<lambda>i. one_to_six (real i / 100)) [0..<400]"

text \<open>
  What a frame is appended to, and the time it is measured from: the buffer and the
  recorded start time, or the empty list and the frame's own clock reading while no
  start time is recorded.
\<close>

definition kept_samples :: "DeviceState \<Rightarrow> SwingSamplePayload list" where
  "kept_samples st = (case startTimeRef st of None \<Rightarrow> [] | Some t0 \<Rightarrow> samplesRef st)"

definition start_time :: "DeviceState \<Rightarrow> real \<Rightarrow> real" where
  "start_time st now = (case startTimeRef st of None \<Rightarrow> now | Some t0 \<Rightarrow> t0)"

section \<open>Properties of the statistics\<close>

lemma summarize_loop_sums:
  "summarize_loop ss (c, a, v) =
     (c + (\<Sum>s\<leftarrow>ss. count s),
      a + (\<Sum>s\<leftarrow>ss. average_confidence s * of_int (count s)),
      v + (\<Sum>s\<leftarrow>ss. average_speed_mps s * of_int (count s)))"
  by (induction ss arbitrary: c a v) (simp_all add: algebra_simps)

lemma overall_shots_loop_sums:
  "overall_shots_loop ss (c, a) =
     (c + (\<Sum>s\<leftarrow>ss. count s),
      a + (\<Sum>s\<leftarrow>ss. average_confidence s * of_int (count s)))"
  by (induction ss arbitrary: c a) (simp_all add: algebra_simps)

lemma overall_loop_sums:
  "overall_loop sessions (c, a) =
     (c + (\<Sum>s\<leftarrow>concat (map shots sessions). count s),
      a + (\<Sum>s\<leftarrow>concat (map shots sessions). average_confidence s * of_int (count s)))"
  by (induction sessions arbitrary: c a) (simp_all add: overall_shots_loop_sums algebra_simps)

lemma dashboard_loop_sums:
  "fst (dashboard_loop ss (c, a, p)) = c + (\<Sum>s\<leftarrow>ss. count s) \<and>
   fst (snd (dashboard_loop ss (c, a, p))) =
     a + (\<Sum>s\<leftarrow>ss. average_confidence s * of_int (count s))"
  by (induction ss arbitrary: c a p) (simp_all add: algebra_simps)

lemma guarded_quotient_mean:
  "guarded_quotient (total_count ss) (\<Sum>s\<leftarrow>ss. f s * of_int (count s)) =
     Inr (count_weighted_mean f ss)"
  by (simp add: guarded_quotient_def js_div_def count_weighted_mean_def)

lemma summarizeShots_mean:
  "summarizeShots ss =
     Inr \<lparr>avgAccuracy = count_weighted_mean average_confidence ss,
          avgSpeed = count_weighted_mean average_speed_mps ss\<rparr>"
proof (cases ss)
  case Nil
  then show ?thesis
    by (simp add: summarizeShots_def zero_summary_def count_weighted_mean_def total_count_def)
next
  case (Cons s rest)
  have loop: "summarize_loop ss (0, 0, 0) =
      (total_count ss, (\<Sum>s\<leftarrow>ss. average_confidence s * of_int (count s)),
       (\<Sum>s\<leftarrow>ss. average_speed_mps s * of_int (count s)))"
    by (simp add: summarize_loop_sums total_count_def)
  have "length ss \<noteq> 0" using Cons by simp
  then show ?thesis
    unfolding summarizeShots_def loop
    by (simp add: guarded_quotient_mean)
qed

lemma overallAccuracy_mean:
  "overallAccuracy sessions = Inr (count_weighted_mean average_confidence (all_shots sessions))"
proof -
  have "overall_loop sessions (0, 0) =
      (total_count (all_shots sessions),
       (\<Sum>s\<leftarrow>all_shots sessions. average_confidence s * of_int (count s)))"
    by (simp add: overall_loop_sums total_count_def all_shots_def)
  then show ?thesis
    by (simp add: overallAccuracy_def guarded_quotient_mean)
qed

lemma overallCount_total: "overallCount sessions = total_count (all_shots sessions)"
  by (simp add: overallCount_def overall_loop_sums total_count_def all_shots_def)

lemma dashboardOverallAccuracy_mean:
  "dashboardOverallAccuracy ss = Inr (count_weighted_mean average_confidence ss)"
proof -
  obtain c a p where r: "dashboard_loop ss (0, 0, None) = (c, a, p)"
    by (cases "dashboard_loop ss (0, 0, None)") auto
  from dashboard_loop_sums [of ss 0 0 None] r
  have "c = total_count ss" "a = (\<Sum>s\<leftarrow>ss. average_confidence s * of_int (count s))"
    by (simp_all add: total_count_def)
  with r show ?thesis
    by (simp add: dashboardOverallAccuracy_def guarded_quotient_mean)
qed

text \<open>
  C1. For every list of per-shot-type statistics the overall accuracy and the overall
  speed of \<open>summarizeShots\<close> are the count-weighted means: the sum of average times count
  over the sum of the counts, and 0 when the counts sum to 0. The career-wide overall
  accuracy is the same mean over the shots of all sessions. The weighting is by count,
  not the mean of the per-shot averages: on three Forehands at confidence 1 and one Smash
  at confidence 0 the result is 3/4, where the mean of the two averages is 1/2.
\<close>

theorem overall_is_count_weighted_mean:
  "(total_count ss \<noteq> 0 \<longrightarrow>
      summarizeShots ss =
        Inr \<lparr>avgAccuracy =
               (\<Sum>s\<leftarrow>ss. average_confidence s * of_int (count s)) / of_int (\<Sum>s\<leftarrow>ss. count s),
             avgSpeed =
               (\<Sum>s\<leftarrow>ss. average_speed_mps s * of_int (count s)) / of_int (\<Sum>s\<leftarrow>ss. count s)\<rparr>) \<and>
   (total_count ss = 0 \<longrightarrow> summarizeShots ss = Inr \<lparr>avgAccuracy = 0, avgSpeed = 0\<rparr>) \<and>
   (total_count (all_shots sessions) \<noteq> 0 \<longrightarrow>
      overallAccuracy sessions =
        Inr ((\<Sum>s\<leftarrow>all_shots sessions. average_confidence s * of_int (count s))
             / of_int (\<Sum>s\<leftarrow>all_shots sessions. count s))) \<and>
   (total_count (all_shots sessions) = 0 \<longrightarrow> overallAccuracy sessions = Inr 0) \<and>
   summarizeShots uneven_shots = Inr \<lparr>avgAccuracy = 3 / 4, avgSpeed = 9\<rparr> \<and>
   mean_of_means average_confidence uneven_shots = 1 / 2 \<and>
   overallAccuracy [\<lparr>session_id = ''s1'', shots = uneven_shots\<rparr>] = Inr (3 / 4)"
proof -
  have ex: "total_count uneven_shots = 4"
    "(\<Sum>s\<leftarrow>uneven_shots. average_confidence s * of_int (count s)) = 3"
    "(\<Sum>s\<leftarrow>uneven_shots. average_speed_mps s * of_int (count s)) = 36"
    "(\<Sum>s\<leftarrow>uneven_shots. average_confidence s) = 1"
    by (simp_all add: uneven_shots_def total_count_def)
  have m: "mean_of_means average_confidence uneven_shots = 1 / 2"
    using ex(4) by (simp add: mean_of_means_def uneven_shots_def)
  have a: "count_weighted_mean average_confidence uneven_shots = 3 / 4"
    "count_weighted_mean average_speed_mps uneven_shots = 9"
    by (simp_all add: count_weighted_mean_def ex)
  have s: "all_shots [\<lparr>session_id = ''s1'', shots = uneven_shots\<rparr>] = uneven_shots"
    by (simp add: all_shots_def)
  have concrete:
    "summarizeShots uneven_shots = Inr \<lparr>avgAccuracy = 3 / 4, avgSpeed = 9\<rparr>"
    "overallAccuracy [\<lparr>session_id = ''s1'', shots = uneven_shots\<rparr>] = Inr (3 / 4)"
    by (simp_all add: summarizeShots_mean overallAccuracy_mean a s)
  have general:
    "total_count xs \<noteq> 0 \<Longrightarrow>
       count_weighted_mean f xs = (\<Sum>s\<leftarrow>xs. f s * of_int (count s)) / of_int (\<Sum>s\<leftarrow>xs. count s)"
    "total_count xs = 0 \<Longrightarrow> count_weighted_mean f xs = 0" for f xs
    by (simp_all add: count_weighted_mean_def total_count_def)
  show ?thesis
    using concrete m
    by (simp add: summarizeShots_mean overallAccuracy_mean general)
qed

theorem overall_is_count_weighted_mean_witness:
  "total_count uneven_shots \<noteq> 0 \<and>
   total_count (all_shots [\<lparr>session_id = ''s1'', shots = uneven_shots\<rparr>]) \<noteq> 0 \<and>
   summarizeShots uneven_shots = Inr \<lparr>avgAccuracy = 3 / 4, avgSpeed = 9\<rparr> \<and>
   overallAccuracy [\<lparr>session_id = ''s1'', shots = uneven_shots\<rparr>] = Inr (3 / 4) \<and>
   total_count idle_shots = 0 \<and>
   summarizeShots idle_shots = Inr \<lparr>avgAccuracy = 0, avgSpeed = 0\<rparr>"
proof -
  have u: "total_count uneven_shots \<noteq> 0"
    by (simp add: total_count_def uneven_shots_def)
  have v: "total_count (all_shots [\<lparr>session_id = ''s1'', shots = uneven_shots\<rparr>]) \<noteq> 0"
    by (simp add: total_count_def all_shots_def uneven_shots_def)
  have i: "total_count idle_shots = 0"
    by (simp add: total_count_def idle_shots_def)
  have sums: "(\<Sum>s\<leftarrow>uneven_shots. count s) = 4"
    "(\<Sum>s\<leftarrow>uneven_shots. average_confidence s * of_int (count s)) = 3"
    "(\<Sum>s\<leftarrow>uneven_shots. average_speed_mps s * of_int (count s)) = 36"
    "all_shots [\<lparr>session_id = ''s1'', shots = uneven_shots\<rparr>] = uneven_shots"
    by (simp_all add: uneven_shots_def all_shots_def)
  from u v
    overall_is_count_weighted_mean [of uneven_shots "[\<lparr>session_id = ''s1'', shots = uneven_shots\<rparr>]"]
  have "summarizeShots uneven_shots = Inr \<lparr>avgAccuracy = 3 / 4, avgSpeed = 9\<rparr>"
    "overallAccuracy [\<lparr>session_id = ''s1'', shots = uneven_shots\<rparr>] = Inr (3 / 4)"
    by (simp_all add: sums)
  moreover from i overall_is_count_weighted_mean [of idle_shots "[]"]
  have "summarizeShots idle_shots = Inr \<lparr>avgAccuracy = 0, avgSpeed = 0\<rparr>"
    by simp
  ultimately show ?thesis using u v i by simp
qed

text \<open>
  C2. The level is a total function of the overall count and the overall accuracy: Pro
  from 400 swings at accuracy 0.80, otherwise Veteran from 200 swings at accuracy 0.65,
  otherwise Amateur. Pro is tested first, so meeting both thresholds gives Pro; and
  (400, 0.80) is Pro, (399, 0.80) is Veteran, (150, 0.90) is Amateur.
\<close>

theorem level_classifier:
  "(c \<ge> 400 \<and> a \<ge> 0.80 \<longrightarrow> level c a = Pro) \<and>
   (\<not> (c \<ge> 400 \<and> a \<ge> 0.80) \<and> c \<ge> 200 \<and> a \<ge> 0.65 \<longrightarrow> level c a = Veteran) \<and>
   (\<not> (c \<ge> 400 \<and> a \<ge> 0.80) \<and> \<not> (c \<ge> 200 \<and> a \<ge> 0.65) \<longrightarrow> level c a = Amateur) \<and>
   ((c \<ge> 400 \<and> a \<ge> 0.80) \<and> (c \<ge> 200 \<and> a \<ge> 0.65) \<longrightarrow> level c a = Pro) \<and>
   level 400 0.80 = Pro \<and> level 399 0.80 = Veteran \<and> level 150 0.90 = Amateur"
  by (simp add: level_def)

theorem level_classifier_witness:
  "((450::int) \<ge> 400 \<and> (0.85::real) \<ge> 0.80) \<and> level 450 0.85 = Pro \<and>
   level 250 0.7 = Veteran \<and> level 500 0.5 = Amateur"
  using level_classifier [of 450 "0.85"] level_classifier [of 250 "0.7"]
    level_classifier [of 500 "0.5"]
  by simp

text \<open>
  C10. Every overall average is guarded against a zero divisor and always has a value:
  \<open>summarizeShots\<close>, the career-wide overall accuracy and the dashboard's overall
  accuracy never end in a division by zero, and when the counts sum to zero, also in a
  list that is not empty and has count 0 throughout, each average is exactly 0.
\<close>

theorem averages_guarded_and_total:
  "(\<exists>r. summarizeShots ss = Inr r) \<and>
   (\<exists>a. overallAccuracy sessions = Inr a) \<and>
   (\<exists>a. dashboardOverallAccuracy ss = Inr a) \<and>
   (total_count ss = 0 \<longrightarrow>
      summarizeShots ss = Inr \<lparr>avgAccuracy = 0, avgSpeed = 0\<rparr> \<and>
      dashboardOverallAccuracy ss = Inr 0) \<and>
   (total_count (all_shots sessions) = 0 \<longrightarrow> overallAccuracy sessions = Inr 0) \<and>
   (ss \<noteq> [] \<and> (\<forall>s\<in>set ss. count s = 0) \<longrightarrow>
      summarizeShots ss = Inr \<lparr>avgAccuracy = 0, avgSpeed = 0\<rparr> \<and>
      dashboardOverallAccuracy ss = Inr 0)"
proof -
  have z: "total_count ss = 0" if "\<forall>s\<in>set ss. count s = 0"
    using that unfolding total_count_def by (induction ss) simp_all
  show ?thesis
    using z
    by (auto simp add: summarizeShots_mean overallAccuracy_mean dashboardOverallAccuracy_mean
        count_weighted_mean_def)
qed

theorem averages_guarded_and_total_witness:
  "idle_shots \<noteq> [] \<and> map count idle_shots = [0, 0] \<and> total_count idle_shots = 0 \<and>
   total_count (all_shots [\<lparr>session_id = ''s1'', shots = idle_shots\<rparr>]) = 0 \<and>
   summarizeShots idle_shots = Inr \<lparr>avgAccuracy = 0, avgSpeed = 0\<rparr> \<and>
   dashboardOverallAccuracy idle_shots = Inr 0 \<and>
   overallAccuracy [\<lparr>session_id = ''s1'', shots = idle_shots\<rparr>] = Inr 0"
proof -
  have n: "idle_shots \<noteq> []" and m: "map count idle_shots = [0, 0]"
    and z: "\<forall>s\<in>set idle_shots. count s = 0"
    by (simp_all add: idle_shots_def)
  have t: "total_count idle_shots = 0"
    "total_count (all_shots [\<lparr>session_id = ''s1'', shots = idle_shots\<rparr>]) = 0"
    by (simp_all add: total_count_def all_shots_def idle_shots_def)
  from n z t
    averages_guarded_and_total [of idle_shots "[\<lparr>session_id = ''s1'', shots = idle_shots\<rparr>]"]
  have "summarizeShots idle_shots = Inr \<lparr>avgAccuracy = 0, avgSpeed = 0\<rparr>"
    "dashboardOverallAccuracy idle_shots = Inr 0"
    "overallAccuracy [\<lparr>session_id = ''s1'', shots = idle_shots\<rparr>] = Inr 0"
    by blast+
  with n m t show ?thesis by simp
qed

section \<open>Properties of the trend labels\<close>










lemma latest_last: "sessions \<noteq> [] \<Longrightarrow> latest sessions = Some (last sessions)"
  by (simp add: latest_def last_conv_nth)

lemma summary_of_accuracy:
  "summary_of x = Inr r \<Longrightarrow> avgAccuracy r = accuracy_of x"
  by (cases x)
    (auto simp add: summary_of_def accuracy_of_def zero_summary_def summarizeShots_mean
      session_accuracy_def)

lemma summary_of_total: "\<exists>r. summary_of x = Inr r"
  by (cases x) (simp_all add: summary_of_def summarizeShots_mean)

lemma accuracyDelta_value:
  "accuracyDelta sessions = Inr (accuracy_of (latest sessions) - accuracy_of (previous sessions))"
proof -
  obtain l p where l: "summary_of (latest sessions) = Inr l"
    and p: "summary_of (previous sessions) = Inr p"
    using summary_of_total by blast
  then show ?thesis
    by (simp add: accuracyDelta_def latestSummary_def prevSummary_def summary_of_accuracy)
qed

lemma accuracyTrend_value:
  "accuracyTrend sessions =
     Inr (renderDeltaLabel (previous sessions)
            (accuracy_of (latest sessions) - accuracy_of (previous sessions)) ''accuracy'')"
  by (simp add: accuracyTrend_def accuracyDelta_value)

lemma two_sessions:
  assumes "length sessions \<ge> 2"
  shows "latest sessions = Some (last sessions)"
    and "previous sessions = Some (sessions ! (length sessions - 2))"
proof -
  from assms have "sessions \<noteq> []" by auto
  then show "latest sessions = Some (last sessions)" by (rule latest_last)
  from assms show "previous sessions = Some (sessions ! (length sessions - 2))"
    by (simp add: previous_def)
qed

lemma toFixed1_5: "toFixed1 5 = ''5.0''"
  by code_simp



lemma steady_then_better_accuracy:
  "session_accuracy (last steady_then_better) = 0.85"
  "session_accuracy (steady_then_better ! (length steady_then_better - 2)) = 0.80"
  "length steady_then_better = 2"
  by (simp_all add: steady_then_better_def session_accuracy_def count_weighted_mean_def
      total_count_def)


lemma accuracyTrend_five_points:
  assumes "length sessions \<ge> 2"
    and "session_accuracy (last sessions) = 0.85"
    and "session_accuracy (sessions ! (length sessions - 2)) = 0.80"
  shows "accuracyTrend sessions = Inr ''5.0% increase in accuracy''"
proof -
  note two = two_sessions [OF assms(1)]
  have d: "accuracy_of (latest sessions) - accuracy_of (previous sessions) = 5 / 100"
    unfolding two accuracy_of_def using assms(2,3) by simp
  show ?thesis
    unfolding accuracyTrend_value d
    by (simp add: two renderDeltaLabel_def toFixed1_5)
qed

text \<open>
  The label is the difference of the two accuracies in percentage points, not the change
  relative to the previous accuracy: 0.85 after 0.80 reads 5.0%, and not 6.3%.
\<close>

theorem trend_085_080_counterexample:
  "session_accuracy (last steady_then_better) = 0.85 \<and>
   session_accuracy (steady_then_better ! (length steady_then_better - 2)) = 0.80 \<and>
   accuracyTrend steady_then_better = Inr ''5.0% increase in accuracy'' \<and>
   accuracyTrend steady_then_better \<noteq> Inr ''6.3% increase in accuracy''"
proof -
  have "accuracyTrend steady_then_better = Inr ''5.0% increase in accuracy''"
    by (rule accuracyTrend_five_points [OF _ steady_then_better_accuracy(1,2)])
      (simp add: steady_then_better_accuracy(3))
  then show ?thesis using steady_then_better_accuracy(1,2) by simp
qed

text \<open>
  C5 (amended). When the latest session's overall accuracy is 0.85 and the previous
  session's is 0.80, the accuracy label is exactly "5.0% increase in accuracy".
\<close>

theorem trend_085_080:
  "length sessions \<ge> 2 \<and> session_accuracy (last sessions) = 0.85 \<and>
   session_accuracy (sessions ! (length sessions - 2)) = 0.80 \<longrightarrow>
     accuracyTrend sessions = Inr ''5.0% increase in accuracy''"
  using accuracyTrend_five_points by blast

theorem trend_085_080_witness:
  "length steady_then_better \<ge> 2 \<and> session_accuracy (last steady_then_better) = 0.85 \<and>
   session_accuracy (steady_then_better ! (length steady_then_better - 2)) = 0.80 \<and>
   accuracyTrend steady_then_better = Inr ''5.0% increase in accuracy''"
proof -
  have h: "length steady_then_better \<ge> 2 \<and> session_accuracy (last steady_then_better) = 0.85 \<and>
    session_accuracy (steady_then_better ! (length steady_then_better - 2)) = 0.80"
    using steady_then_better_accuracy(1,2) by (simp add: steady_then_better_accuracy(3))
  with trend_085_080 [of steady_then_better] show ?thesis by blast
qed

section \<open>Properties of the feedback generator\<close>








subsection \<open>Rounding\<close>




lemma bitlen_pos: "0 < n \<Longrightarrow> 0 < bitlen n"
  using bitlen_nonneg [of n] bitlen_eq_zero_iff [of n] by linarith

lemma ilog2_lower_ge1:
  assumes "1 \<le> x"
  shows "pow2 (ilog2 x) \<le> x"
proof -
  have n: "0 < \<lfloor>x\<rfloor>" using assms by linarith
  have b: "0 < bitlen \<lfloor>x\<rfloor>" using n by (rule bitlen_pos)
  have "(2::int) ^ nat (bitlen \<lfloor>x\<rfloor> - 1) \<le> \<lfloor>x\<rfloor>" using bitlen_bounds [OF n] by simp
  then have "real_of_int (2 ^ nat (bitlen \<lfloor>x\<rfloor> - 1)) \<le> of_int \<lfloor>x\<rfloor>"
    by (simp only: of_int_le_iff)
  then have "(2::real) ^ nat (bitlen \<lfloor>x\<rfloor> - 1) \<le> of_int \<lfloor>x\<rfloor>" by simp
  also have "\<dots> \<le> x" by linarith
  finally show ?thesis using assms b by (simp add: ilog2_def pow2_def)
qed

lemma ilog2_bounds:
  assumes "0 < x"
  shows "pow2 (ilog2 x) \<le> x \<and> x < pow2 (ilog2 x + 1)"
proof (cases "1 \<le> x")
  case True
  have n: "0 < \<lfloor>x\<rfloor>" using True by linarith
  have b: "0 < bitlen \<lfloor>x\<rfloor>" using n by (rule bitlen_pos)
  have "\<lfloor>x\<rfloor> < 2 ^ nat (bitlen \<lfloor>x\<rfloor>)" using bitlen_bounds [OF n] by simp
  then have "\<lfloor>x\<rfloor> + 1 \<le> 2 ^ nat (bitlen \<lfloor>x\<rfloor>)" by simp
  then have "real_of_int (\<lfloor>x\<rfloor> + 1) \<le> real_of_int (2 ^ nat (bitlen \<lfloor>x\<rfloor>))"
    by (simp only: of_int_le_iff)
  then have "real_of_int \<lfloor>x\<rfloor> + 1 \<le> 2 ^ nat (bitlen \<lfloor>x\<rfloor>)" by simp
  moreover have "x < real_of_int \<lfloor>x\<rfloor> + 1" by linarith
  ultimately have "x < 2 ^ nat (bitlen \<lfloor>x\<rfloor>)" by linarith
  then have "x < pow2 (ilog2 x + 1)" using True b by (simp add: ilog2_def pow2_def)
  with ilog2_lower_ge1 [OF True] show ?thesis by simp
next
  case False
  let ?n = "\<lceil>1 / x\<rceil> - 1"
  let ?k = "bitlen ?n"
  have inv: "1 < 1 / x" using assms False by simp
  then have n: "0 < ?n" by linarith
  have k: "0 < ?k" using n by (rule bitlen_pos)
  have e: "ilog2 x = - ?k" using False by (simp add: ilog2_def)
  have lo: "(2::int) ^ nat (?k - 1) \<le> ?n" and hi: "?n < 2 ^ nat ?k"
    using bitlen_bounds [OF n] by simp_all
  from hi have "?n + 1 \<le> 2 ^ nat ?k" by simp
  then have "real_of_int (?n + 1) \<le> real_of_int (2 ^ nat ?k)" by (simp only: of_int_le_iff)
  then have "real_of_int \<lceil>1 / x\<rceil> \<le> 2 ^ nat ?k" by simp
  moreover have "1 / x \<le> real_of_int \<lceil>1 / x\<rceil>" by linarith
  ultimately have "1 / x \<le> 2 ^ nat ?k" by linarith
  then have "1 \<le> 2 ^ nat ?k * x" using assms by (simp add: field_simps)
  then have lower: "1 / 2 ^ nat ?k \<le> x" by (simp add: field_simps)
  from lo have "real_of_int (2 ^ nat (?k - 1)) \<le> real_of_int ?n" by (simp only: of_int_le_iff)
  then have "(2::real) ^ nat (?k - 1) \<le> real_of_int \<lceil>1 / x\<rceil> - 1" by simp
  moreover have "real_of_int \<lceil>1 / x\<rceil> - 1 < 1 / x" by linarith
  ultimately have "(2::real) ^ nat (?k - 1) < 1 / x" by linarith
  then have "2 ^ nat (?k - 1) * x < 1" using assms by (simp add: field_simps)
  then have upper: "x < 1 / 2 ^ nat (?k - 1)" by (simp add: field_simps)
  have p1: "pow2 (- ?k) = 1 / 2 ^ nat ?k" using k by (simp add: pow2_def)
  have p2: "pow2 (- ?k + 1) = 1 / 2 ^ nat (?k - 1)"
  proof (cases "?k = 1")
    case True
    then show ?thesis by (simp add: pow2_def)
  next
    case False
    with k have "\<not> 0 \<le> - ?k + 1" "nat (- (- ?k + 1)) = nat (?k - 1)" by simp_all
    then show ?thesis by (simp only: pow2_def if_False)
  qed
  show ?thesis unfolding e p1 p2 using lower upper by simp
qed



subsection \<open>The rules\<close>


















section \<open>Properties of the live capture\<close>

lemma getFloat32_in_range:
  "off + 4 \<le> length v \<Longrightarrow> getFloat32 v off = Inr (field_at v off)"
  by (simp add: getFloat32_def field_at_def)

lemma readSample_decoded:
  assumes "length v \<ge> 24"
  shows "readSample v start now = Inr (decoded v start now)"
  using assms
  by (simp add: readSample_def bind_fault_def getFloat32_in_range decoded_def)

lemma slice_last_length: "length (slice_last k xs) = min k (length xs)"
  by (simp add: slice_last_def)

lemma slice_last_short: "length xs \<le> k \<Longrightarrow> slice_last k xs = xs"
  by (simp add: slice_last_def)

lemma cap_is_slice:
  "(if length xs > k then slice_last k xs else xs) = slice_last k xs"
  by (simp add: slice_last_def)

lemma slice_last_append:
  "slice_last k (slice_last k xs @ ys) = slice_last k (xs @ ys)"
proof (cases "length xs \<le> k")
  case True
  then show ?thesis by (simp add: slice_last_short)
next
  case False
  then have "length (slice_last k xs) = k" by (simp add: slice_last_length)
  with False show ?thesis
    by (simp add: slice_last_def add.commute)
qed

lemma addSample_short:
  "length v < 24 \<Longrightarrow> addSampleFromNotification v now st = Inr st"
  by (simp add: addSampleFromNotification_def)

lemma addSample_accepted:
  assumes "length v \<ge> 24"
  shows "addSampleFromNotification v now st =
     Inr (st\<lparr>startTimeRef := Some (start_time st now),
              samplesRef := slice_last 400 (kept_samples st @ [decoded v (start_time st now) now]),
              lastSample := Some (decoded v (start_time st now) now)\<rparr>)"
  using assms
  by (cases "startTimeRef st")
    (simp_all add: addSampleFromNotification_def readSample_decoded bind_fault_def
      kept_samples_def start_time_def cap_is_slice Let_def)


lemma step_total: "\<exists>st'. step ev st = Inr st'"
proof (cases ev)
  case (Notification v now)
  show ?thesis
  proof (cases v)
    case None
    with Notification show ?thesis by simp
  next
    case (Some bytes)
    show ?thesis
      unfolding Notification Some
      by (cases "length bytes < 24") (simp_all add: addSample_short addSample_accepted)
  qed
qed simp_all

lemma step_bounded:
  assumes "step ev st = Inr st'" "length (samplesRef st) \<le> 400"
  shows "length (samplesRef st') \<le> 400"
proof (cases ev)
  case (Connect r)
  with assms show ?thesis
    by (auto simp add: handleConnect_def Let_def split: connect_result.splits if_splits)
next
  case Disconnect
  with assms show ?thesis by (auto simp add: handleDisconnect_def)
next
  case (Notification v now)
  show ?thesis
  proof (cases v)
    case None
    with Notification assms show ?thesis by simp
  next
    case (Some bytes)
    show ?thesis
    proof (cases "length bytes < 24")
      case True
      with Notification Some assms show ?thesis by (simp add: addSample_short)
    next
      case False
      then have "length bytes \<ge> 24" by simp
      from addSample_accepted [OF this, of now st] Notification Some assms(1)
      show ?thesis by (auto simp add: slice_last_length)
    qed
  qed
next
  case (SendSwing a)
  with assms show ?thesis
    by (auto simp add: handleSendSwing_def Let_def split: classify_result.splits if_splits)
qed

lemma run_bounded:
  "\<exists>st'. run evs st = Inr st' \<and>
     (length (samplesRef st) \<le> 400 \<longrightarrow> length (samplesRef st') \<le> 400)"
proof (induction evs arbitrary: st)
  case Nil
  then show ?case by simp
next
  case (Cons ev evs)
  obtain st1 where s1: "step ev st = Inr st1" using step_total by blast
  obtain st2 where s2: "run evs st1 = Inr st2"
    and b2: "length (samplesRef st1) \<le> 400 \<longrightarrow> length (samplesRef st2) \<le> 400"
    using Cons.IH by blast
  have "run (ev # evs) st = Inr st2" using s1 s2 by (simp add: bind_fault_def)
  moreover have "length (samplesRef st) \<le> 400 \<longrightarrow> length (samplesRef st2) \<le> 400"
    using step_bounded [OF s1] b2 by blast
  ultimately show ?case by blast
qed

lemma run_frames_started:
  assumes "\<forall>f\<in>set fs. length (fst f) \<ge> 24" "startTimeRef st = Some t0"
    "length (samplesRef st) \<le> 400"
  shows "\<exists>st'. run (map notify fs) st = Inr st' \<and> startTimeRef st' = Some t0 \<and>
           samplesRef st' =
             slice_last 400 (samplesRef st @ map (\<lambda>f. decoded (fst f) t0 (snd f)) fs)"
  using assms
proof (induction fs arbitrary: st)
  case Nil
  then show ?case by (simp add: slice_last_short)
next
  case (Cons f fs)
  let ?d = "decoded (fst f) t0 (snd f)"
  define st1 where "st1 = st\<lparr>startTimeRef := Some t0,
      samplesRef := slice_last 400 (samplesRef st @ [?d]), lastSample := Some ?d\<rparr>"
  have len: "length (fst f) \<ge> 24" using Cons.prems(1) by simp
  have first: "step (notify f) st = Inr st1"
    using addSample_accepted [OF len, of "snd f" st] Cons.prems(2)
    by (simp add: notify_def st1_def start_time_def kept_samples_def)
  have "\<forall>f\<in>set fs. length (fst f) \<ge> 24" using Cons.prems(1) by simp
  moreover have "startTimeRef st1 = Some t0" by (simp add: st1_def)
  moreover have "length (samplesRef st1) \<le> 400" by (simp add: st1_def slice_last_length)
  ultimately obtain st' where r: "run (map notify fs) st1 = Inr st'"
    and s: "startTimeRef st' = Some t0"
    and b: "samplesRef st' =
      slice_last 400 (samplesRef st1 @ map (\<lambda>f. decoded (fst f) t0 (snd f)) fs)"
    using Cons.IH by blast
  have "samplesRef st' =
      slice_last 400 (samplesRef st @ map (\<lambda>f. decoded (fst f) t0 (snd f)) (f # fs))"
    unfolding b by (simp add: st1_def slice_last_append)
  moreover have "run (map notify (f # fs)) st = Inr st'"
    using first r by (simp add: bind_fault_def)
  ultimately show ?case using s by blast
qed

lemma run_frames_mounted:
  assumes "\<forall>f\<in>set fs. length (fst f) \<ge> 24" "fs \<noteq> []"
  shows "\<exists>st'. run (map notify fs) (mounted b) = Inr st' \<and>
           startTimeRef st' = Some (snd (hd fs)) \<and>
           samplesRef st' =
             slice_last 400 (map (\<lambda>f. decoded (fst f) (snd (hd fs)) (snd f)) fs)"
proof -
  from assms(2) obtain f rest where fs: "fs = f # rest" by (cases fs) auto
  let ?t0 = "snd f"
  let ?d = "decoded (fst f) ?t0 ?t0"
  define st1 where "st1 = (mounted b)\<lparr>startTimeRef := Some ?t0,
      samplesRef := [?d], lastSample := Some ?d\<rparr>"
  have len: "length (fst f) \<ge> 24" using assms(1) fs by simp
  have first: "step (notify f) (mounted b) = Inr st1"
    using addSample_accepted [OF len, of ?t0 "mounted b"]
    by (simp add: notify_def st1_def start_time_def kept_samples_def mounted_def
        slice_last_short)
  have "\<forall>f\<in>set rest. length (fst f) \<ge> 24" using assms(1) fs by simp
  moreover have "startTimeRef st1 = Some ?t0" by (simp add: st1_def)
  moreover have "length (samplesRef st1) \<le> 400" by (simp add: st1_def)
  ultimately obtain st' where r: "run (map notify rest) st1 = Inr st'"
    and s: "startTimeRef st' = Some ?t0"
    and k: "samplesRef st' =
      slice_last 400 (samplesRef st1 @ map (\<lambda>f. decoded (fst f) ?t0 (snd f)) rest)"
    using run_frames_started [of rest st1 ?t0] by blast
  have "run (map notify fs) (mounted b) = Inr st'"
    using first r by (simp add: fs bind_fault_def)
  moreover have "samplesRef st' =
      slice_last 400 (map (\<lambda>f. decoded (fst f) (snd (hd fs)) (snd f)) fs)"
    unfolding k by (simp add: fs st1_def)
  ultimately show ?thesis using s by (simp add: fs)
qed

lemma frame_length: "length frame_1_to_6 = 24"
  by (simp add: frame_1_to_6_def)

lemma frame_fields:
  "field_at frame_1_to_6 0 = Num 1" "field_at frame_1_to_6 4 = Num 2"
  "field_at frame_1_to_6 8 = Num 3" "field_at frame_1_to_6 12 = Num 4"
  "field_at frame_1_to_6 16 = Num 5" "field_at frame_1_to_6 20 = Num 6"
  by (simp_all add: field_at_def frame_1_to_6_def float32_value_def le32_def)

lemma frame_decoded: "decoded frame_1_to_6 start now = one_to_six ((now - start) / 1000)"
  by (simp add: decoded_def one_to_six_def frame_fields)

lemma field_at_append:
  "off + 4 \<le> length v \<Longrightarrow> field_at (v @ extra) off = field_at v off"
  by (simp add: field_at_def nth_append)

lemma decoded_append:
  "length v \<ge> 24 \<Longrightarrow> decoded (v @ extra) start now = decoded v start now"
  by (simp add: decoded_def field_at_append)

text \<open>
  C6. The decoder produces a sample exactly when the notification has at least 24 bytes.
  A shorter one (23 bytes, say) changes nothing and raises nothing. From 24 bytes on, a
  sample is appended whose fields are the six little-endian binary32 values at offsets
  0, 4, 8, 12, 16, 20, in the order ax, ay, az, gx, gy, gz; bytes after the 24th do not
  matter. The 24 bytes that encode 1.0, ..., 6.0 decode to ax = 1, ..., gz = 6.
\<close>

theorem frame_decoder:
  "(length v < 24 \<longrightarrow> addSampleFromNotification v now st = Inr st) \<and>
   (length v \<ge> 24 \<longrightarrow>
      (\<exists>sample st'.
         addSampleFromNotification v now st = Inr st' \<and>
         lastSample st' = Some sample \<and> samplesRef st' \<noteq> [] \<and>
         last (samplesRef st') = sample \<and>
         ax sample = field_at v 0 \<and> ay sample = field_at v 4 \<and> az sample = field_at v 8 \<and>
         gx sample = field_at v 12 \<and> gy sample = field_at v 16 \<and> gz sample = field_at v 20) \<and>
      addSampleFromNotification (v @ extra) now st = addSampleFromNotification v now st) \<and>
   length frame_1_to_6 = 24 \<and>
   addSampleFromNotification frame_1_to_6 now (mounted b) =
     Inr ((mounted b)\<lparr>startTimeRef := Some now, samplesRef := [one_to_six 0],
                       lastSample := Some (one_to_six 0)\<rparr>) \<and>
   length (take 23 frame_1_to_6) = 23 \<and>
   addSampleFromNotification (take 23 frame_1_to_6) now st = Inr st"
proof -
  have short: "length v < 24 \<Longrightarrow> addSampleFromNotification v now st = Inr st" for v
    by (rule addSample_short)
  have long: "\<exists>sample st'.
         addSampleFromNotification v now st = Inr st' \<and>
         lastSample st' = Some sample \<and> samplesRef st' \<noteq> [] \<and>
         last (samplesRef st') = sample \<and>
         ax sample = field_at v 0 \<and> ay sample = field_at v 4 \<and> az sample = field_at v 8 \<and>
         gx sample = field_at v 12 \<and> gy sample = field_at v 16 \<and> gz sample = field_at v 20"
    if "length v \<ge> 24"
  proof -
    let ?d = "decoded v (start_time st now) now"
    have "slice_last 400 (kept_samples st @ [?d]) \<noteq> []"
      "last (slice_last 400 (kept_samples st @ [?d])) = ?d"
      by (simp_all add: slice_last_def)
    then show ?thesis
      unfolding addSample_accepted [OF that]
      by (simp add: decoded_def)
  qed
  have trailing: "addSampleFromNotification (v @ extra) now st = addSampleFromNotification v now st"
    if "length v \<ge> 24"
  proof -
    from that have "length (v @ extra) \<ge> 24" by simp
    then show ?thesis
      unfolding addSample_accepted [OF that] addSample_accepted [OF \<open>length (v @ extra) \<ge> 24\<close>]
      by (simp add: decoded_append [OF that])
  qed
  have "length frame_1_to_6 \<ge> 24" by (simp add: frame_length)
  then have example: "addSampleFromNotification frame_1_to_6 now (mounted b) =
     Inr ((mounted b)\<lparr>startTimeRef := Some now, samplesRef := [one_to_six 0],
                       lastSample := Some (one_to_six 0)\<rparr>)"
    by (simp add: addSample_accepted frame_decoded start_time_def kept_samples_def
        mounted_def slice_last_short)
  have cut: "length (take 23 frame_1_to_6) = 23" by (simp add: frame_length)
  then have "addSampleFromNotification (take 23 frame_1_to_6) now st = Inr st"
    by (intro short) simp
  with short [of v] long trailing example cut frame_length show ?thesis by blast
qed

theorem frame_decoder_witness:
  "length frame_1_to_6 \<ge> 24 \<and>
   addSampleFromNotification (frame_1_to_6 @ [0xFF, 0x01]) 1000 (mounted True) =
     Inr ((mounted True)\<lparr>startTimeRef := Some 1000, samplesRef := [one_to_six 0],
                          lastSample := Some (one_to_six 0)\<rparr>) \<and>
   length (take 23 frame_1_to_6) < 24 \<and>
   addSampleFromNotification (take 23 frame_1_to_6) 1000 (mounted True) = Inr (mounted True)"
proof -
  have a: "length frame_1_to_6 \<ge> 24" by (simp add: frame_length)
  have b: "length (take 23 frame_1_to_6) < 24" by (simp add: frame_length)
  from a frame_decoder [of frame_1_to_6 1000 "mounted True" "[0xFF, 0x01]" True]
  have "addSampleFromNotification (frame_1_to_6 @ [0xFF, 0x01]) 1000 (mounted True) =
     Inr ((mounted True)\<lparr>startTimeRef := Some 1000, samplesRef := [one_to_six 0],
                          lastSample := Some (one_to_six 0)\<rparr>)"
    by simp
  moreover from b frame_decoder [of "take 23 frame_1_to_6" 1000 "mounted True" "[]" True]
  have "addSampleFromNotification (take 23 frame_1_to_6) 1000 (mounted True) = Inr (mounted True)"
    by blast
  ultimately show ?thesis using a b by blast
qed

text \<open>
  C7. The buffer never holds more than 400 samples. Each accepted notification appends
  one sample and then keeps the last 400, so the length is the smaller of 400 and one
  more than before; whatever happens to a mounted page, the length stays within 400.
  After any run of accepted frames on a fresh page the buffer is the last 400 of the
  decoded samples in their order: of 450 frames, the samples of the last 400.
\<close>

theorem capture_buffer_cap:
  "(length v \<ge> 24 \<longrightarrow>
      (\<exists>st'. addSampleFromNotification v now st = Inr st' \<and>
         samplesRef st' = slice_last 400 (kept_samples st @ [decoded v (start_time st now) now]) \<and>
         length (samplesRef st') = min 400 (length (kept_samples st) + 1) \<and>
         length (samplesRef st') \<le> 400)) \<and>
   (\<exists>st'. run evs st = Inr st' \<and>
      (length (samplesRef st) \<le> 400 \<longrightarrow> length (samplesRef st') \<le> 400)) \<and>
   (\<exists>st'. run evs (mounted b) = Inr st' \<and> length (samplesRef st') \<le> 400) \<and>
   ((\<forall>f\<in>set fs. length (fst f) \<ge> 24) \<and> fs \<noteq> [] \<longrightarrow>
      (\<exists>st'. run (map notify fs) (mounted b) = Inr st' \<and>
         samplesRef st' =
           drop (length fs - 400) (map (\<lambda>f. decoded (fst f) (snd (hd fs)) (snd f)) fs))) \<and>
   ((\<forall>f\<in>set fs. length (fst f) \<ge> 24) \<and> length fs = 450 \<longrightarrow>
      (\<exists>st'. run (map notify fs) (mounted b) = Inr st' \<and> length (samplesRef st') = 400 \<and>
         samplesRef st' = drop 50 (map (\<lambda>f. decoded (fst f) (snd (hd fs)) (snd f)) fs)))"
proof -
  have one: "\<exists>st'. addSampleFromNotification v now st = Inr st' \<and>
         samplesRef st' = slice_last 400 (kept_samples st @ [decoded v (start_time st now) now]) \<and>
         length (samplesRef st') = min 400 (length (kept_samples st) + 1) \<and>
         length (samplesRef st') \<le> 400"
    if "length v \<ge> 24"
    unfolding addSample_accepted [OF that] by (simp add: slice_last_length)
  have any: "\<exists>st'. run evs st = Inr st' \<and>
      (length (samplesRef st) \<le> 400 \<longrightarrow> length (samplesRef st') \<le> 400)" for st
    by (rule run_bounded)
  have fresh: "\<exists>st'. run evs (mounted b) = Inr st' \<and> length (samplesRef st') \<le> 400"
    using any [of "mounted b"] by (simp add: mounted_def)
  have frames: "\<exists>st'. run (map notify fs) (mounted b) = Inr st' \<and>
         samplesRef st' =
           drop (length fs - 400) (map (\<lambda>f. decoded (fst f) (snd (hd fs)) (snd f)) fs)"
    if "\<forall>f\<in>set fs. length (fst f) \<ge> 24" "fs \<noteq> []"
    using run_frames_mounted [OF that, of b] by (auto simp add: slice_last_def)
  have many: "\<exists>st'. run (map notify fs) (mounted b) = Inr st' \<and> length (samplesRef st') = 400 \<and>
         samplesRef st' = drop 50 (map (\<lambda>f. decoded (fst f) (snd (hd fs)) (snd f)) fs)"
    if "\<forall>f\<in>set fs. length (fst f) \<ge> 24" "length fs = 450"
  proof -
    from that(2) have "fs \<noteq> []" by auto
    from frames [OF that(1) this] that(2) show ?thesis by auto
  qed
  from one any [of st] fresh frames many show ?thesis by blast
qed

theorem capture_buffer_cap_witness:
  "length frame_1_to_6 \<ge> 24 \<and>
   length (map (\<lambda>i. (frame_1_to_6, real i * 10)) [0..<450]) = 450 \<and>
   list_all (\<lambda>f. length (fst f) \<ge> 24) (map (\<lambda>i. (frame_1_to_6, real i * 10)) [0..<450]) \<and>
   (\<exists>st'. run (map notify (map (\<lambda>i. (frame_1_to_6, real i * 10)) [0..<450])) (mounted True)
            = Inr st' \<and>
          length (samplesRef st') = 400 \<and>
          samplesRef st' = map (\<lambda>i. one_to_six (real i / 100)) [50..<450])"
proof -
  let ?fs = "map (\<lambda>i. (frame_1_to_6, real i * 10)) [0..<450]"
  have a: "length frame_1_to_6 \<ge> 24" by (simp add: frame_length)
  have l: "length ?fs = 450" by simp
  have v: "\<forall>f\<in>set ?fs. length (fst f) \<ge> 24" by (simp add: frame_length)
  have h: "snd (hd ?fs) = 0" by (simp add: hd_map upt_conv_Cons)
  have m: "map (\<lambda>f. decoded (fst f) (snd (hd ?fs)) (snd f)) ?fs =
      map (\<lambda>i. one_to_six (real i / 100)) [0..<450]"
    unfolding h by (simp add: frame_decoded)
  have d: "drop 50 (map (\<lambda>i. one_to_six (real i / 100)) [0..<450]) =
      map (\<lambda>i. one_to_six (real i / 100)) [50..<450]"
    by (simp add: drop_map)
  from v l capture_buffer_cap [of frame_1_to_6 0 "mounted True" "[]" True ?fs]
  have "\<exists>st'. run (map notify ?fs) (mounted True) = Inr st' \<and> length (samplesRef st') = 400 \<and>
         samplesRef st' = drop 50 (map (\<lambda>f. decoded (fst f) (snd (hd ?fs)) (snd f)) ?fs)"
    by blast
  then have "\<exists>st'. run (map notify ?fs) (mounted True) = Inr st' \<and> length (samplesRef st') = 400 \<and>
         samplesRef st' = map (\<lambda>i. one_to_six (real i / 100)) [50..<450]"
    unfolding m d .
  moreover have "list_all (\<lambda>f. length (fst f) \<ge> 24) ?fs"
    using v by (simp only: list_all_iff)
  ultimately show ?thesis using a l by blast
qed


text \<open>
  C8. A capture epoch is to begin with an empty buffer and with its first accepted frame
  stamped 0, on every connect and reconnect. The page does this for the first accepted
  frame after it is mounted only: the guard on the start time clears the buffer too, but
  neither \<open>handleConnect\<close> nor \<open>handleDisconnect\<close> clears the start time, so the
  guard never fires again. On connect, a frame at clock 1000 ms, disconnect, connect, a
  frame at clock 5000 ms, the frame after the reconnect is stamped 4 seconds, not 0, and
  the sample from before the disconnect is still in the buffer.
\<close>

theorem reconnect_keeps_first_epoch:
  "run reconnect_trace (mounted True) =
     Inr \<lparr>samplesRef = [one_to_six 0, one_to_six 4], startTimeRef = Some 1000,
          deviceRef = True, supported = Some True, connecting = False, is_connected = True,
          deviceName = ''NeuraBat'', error_text = None, sending = False,
          lastSample = Some (one_to_six 4), lastResult = None\<rparr>"
proof -
  have len: "length frame_1_to_6 \<ge> 24" by (simp add: frame_length)
  show ?thesis
    by (simp add: reconnect_trace_def notify_def bind_fault_def handleConnect_def
        handleDisconnect_def mounted_def addSample_accepted [OF len] frame_decoded
        start_time_def kept_samples_def slice_last_short name_or_def)
qed

text \<open>
  C9. Sending a swing is refused exactly when the buffer is empty: then no request goes
  out and the no-samples text is set. On any other buffer the request carries the last
  \<open>min 100 (length buffer)\<close> samples and the sampling rate 100; on a buffer of 400
  these are its elements 300 to 399, index by index. The buffer itself is never changed.
\<close>

theorem window_extraction:
  "(samplesRef st = [] \<longrightarrow>
      snd (handleSendSwing answer st) = None \<and>
      error_text (fst (handleSendSwing answer st)) =
        Some ''No samples captured yet from the device. Move the bat to generate data.'') \<and>
   (samplesRef st \<noteq> [] \<longrightarrow>
      (\<exists>request. snd (handleSendSwing answer st) = Some request \<and>
         samples request = drop (length (samplesRef st) - 100) (samplesRef st) \<and>
         length (samples request) = min 100 (length (samplesRef st)) \<and>
         sampling_rate_hz request = 100)) \<and>
   samplesRef (fst (handleSendSwing answer st)) = samplesRef st \<and>
   (length (samplesRef st) = 400 \<longrightarrow>
      (\<exists>request. snd (handleSendSwing answer st) = Some request \<and>
         length (samples request) = 100 \<and>
         (\<forall>i<100. samples request ! i = samplesRef st ! (300 + i))))"
proof -
  have empty: "snd (handleSendSwing answer st) = None \<and>
      error_text (fst (handleSendSwing answer st)) =
        Some ''No samples captured yet from the device. Move the bat to generate data.''"
    if "samplesRef st = []"
    using that by (simp add: handleSendSwing_def)
  have sent: "\<exists>request. snd (handleSendSwing answer st) = Some request \<and>
         samples request = drop (length (samplesRef st) - 100) (samplesRef st) \<and>
         length (samples request) = min 100 (length (samplesRef st)) \<and>
         sampling_rate_hz request = 100"
    if "samplesRef st \<noteq> []"
    using that
    by (cases answer) (auto simp add: handleSendSwing_def Let_def slice_last_def)
  have same: "samplesRef (fst (handleSendSwing answer st)) = samplesRef st"
    by (cases answer) (simp_all add: handleSendSwing_def Let_def)
  have full: "\<exists>request. snd (handleSendSwing answer st) = Some request \<and>
         length (samples request) = 100 \<and>
         (\<forall>i<100. samples request ! i = samplesRef st ! (300 + i))"
    if "length (samplesRef st) = 400"
  proof -
    from that have "samplesRef st \<noteq> []" by auto
    from sent [OF this] that show ?thesis by auto
  qed
  from empty sent same full show ?thesis by blast
qed

theorem window_extraction_witness:
  "length (samplesRef ((mounted True)\<lparr>samplesRef := full_buffer\<rparr>)) = 400 \<and>
   samplesRef ((mounted True)\<lparr>samplesRef := full_buffer\<rparr>) \<noteq> [] \<and>
   (\<exists>request.
      snd (handleSendSwing (ClassifyFailed None) ((mounted True)\<lparr>samplesRef := full_buffer\<rparr>))
        = Some request \<and>
      length (samples request) = 100 \<and> samples request ! 0 = one_to_six 3 \<and>
      samples request ! 99 = one_to_six (399 / 100)) \<and>
   samplesRef (mounted True) = [] \<and>
   snd (handleSendSwing (ClassifyFailed None) (mounted True)) = None"
proof -
  let ?st = "(mounted True)\<lparr>samplesRef := full_buffer\<rparr>"
  have l: "length (samplesRef ?st) = 400" by (simp add: full_buffer_def)
  then have n: "samplesRef ?st \<noteq> []" by auto
  have e: "samplesRef (mounted True) = []" by (simp add: mounted_def)
  have i: "samplesRef ?st ! (300 + 0) = one_to_six 3"
    "samplesRef ?st ! (300 + 99) = one_to_six (399 / 100)"
    by (simp_all add: full_buffer_def)
  from l window_extraction [of ?st "ClassifyFailed None"]
  obtain request where r: "snd (handleSendSwing (ClassifyFailed None) ?st) = Some request"
    "length (samples request) = 100"
    "\<forall>i<100. samples request ! i = samplesRef ?st ! (300 + i)"
    by blast
  from r(3) have "samples request ! 0 = samplesRef ?st ! (300 + 0)"
    "samples request ! 99 = samplesRef ?st ! (300 + 99)"
    by simp_all
  with i have "samples request ! 0 = one_to_six 3" "samples request ! 99 = one_to_six (399 / 100)"
    by simp_all
  with r(1,2) have "\<exists>request. snd (handleSendSwing (ClassifyFailed None) ?st) = Some request \<and>
      length (samples request) = 100 \<and> samples request ! 0 = one_to_six 3 \<and>
      samples request ! 99 = one_to_six (399 / 100)"
    by blast
  moreover from e window_extraction [of "mounted True" "ClassifyFailed None"]
  have "snd (handleSendSwing (ClassifyFailed None) (mounted True)) = None" by blast
  ultimately show ?thesis using l n e by blast
qed

end
